theory Spec2Isabelle
  imports Main "HOL-Library.Word"
begin

section \<open>go-tracey: a function enter/exit tracer\<close>

text \<open>
  A shallow embedding of \<^verbatim>\<open>tracey.go\<close>. Go strings are byte strings
  (\<^typ>\<open>string\<close>), the package-level maps are partial functions, a nil map is
  \<^term>\<open>None\<close>, a panic is the left summand of the result. What the Go runtime
  supplies at a call (goroutine id, caller frame, clock) is an input of the call.
  A depth is an unbounded integer: it takes 2^63 open calls to leave the range of Go's
  \<^verbatim>\<open>int\<close>. The product of a depth and \<^verbatim>\<open>SpacesPerIndent\<close> wraps
  around as a 64-bit \<^verbatim>\<open>int\<close> does.
\<close>

subsection \<open>Standard-library helpers\<close>

text \<open>Decimal rendering, as \<^verbatim>\<open>strconv.FormatUint(n, 10)\<close> and
  \<^verbatim>\<open>strconv.Itoa\<close> produce it.\<close>

definition digit :: "int \<Rightarrow> char" where
  "digit n = ''0123456789'' ! nat n"

function digits :: "int \<Rightarrow> string" where
  "digits n = (if n < 10 then [digit n] else digits (n div 10) @ [digit (n mod 10)])"
  by auto
termination
  by (relation "measure nat") auto

declare digits.simps [simp del]

definition FormatUint :: "64 word \<Rightarrow> string" where
  "FormatUint n = digits (uint n)"

definition Itoa :: "int \<Rightarrow> string" where
  "Itoa i = (if i < 0 then CHR ''-'' # digits (- i) else digits i)"

text \<open>\<^verbatim>\<open>fmt.Sprintf("%2d", d)\<close>: the decimal text, padded on the left with
  spaces to width 2.\<close>

definition pad2 :: "int \<Rightarrow> string" where
  "pad2 d = replicate (2 - length (Itoa d)) CHR '' '' @ Itoa d"

text \<open>The value of an \<^verbatim>\<open>int\<close> expression on a 64-bit platform: the
  mathematical result, wrapped into the range from -2^63 to 2^63 - 1.\<close>

definition wrap64 :: "int \<Rightarrow> int" where
  "wrap64 x = (x + 9223372036854775808) mod 18446744073709551616 - 9223372036854775808"

text \<open>\<^verbatim>\<open>strings.Repeat(" ", count)\<close> panics on a negative count. That the
  memory for the result is there is taken for granted.\<close>

datatype error = NegativeRepeatCount | NilMapWrite | NilLogger

definition Repeat :: "int \<Rightarrow> error + string" where
  "Repeat count = (if count < 0 then Inl NegativeRepeatCount
                   else Inr (replicate (nat count) CHR '' ''))"

subsection \<open>The two regular expressions\<close>

text \<open>
  \<^verbatim>\<open>RE_stripFnPreamble = ^.*\/(.*)$\<close>, used as
  \<^verbatim>\<open>ReplaceAllString(name, "$1")\<close>. The dot does not match a newline and the
  anchors are those of the whole text, so the expression matches exactly a text without
  newline that has a slash; the first star is greedy, so the group is what follows the
  last slash. \<open>lastGroup\<close> finds the group: a slash further right wins.
\<close>

fun lastGroup :: "string \<Rightarrow> string option" where
  "lastGroup [] = None"
| "lastGroup (c # cs) =
     (case lastGroup cs of
        Some g \<Rightarrow> Some g
      | None \<Rightarrow> if c = CHR ''/'' then Some cs else None)"

definition stripFnPreamble :: "string \<Rightarrow> string" where
  "stripFnPreamble name =
     (if CHR 0x0A \<in> set name then name
      else case lastGroup name of None \<Rightarrow> name | Some g \<Rightarrow> g)"

text \<open>
  \<^verbatim>\<open>RE_detectFN = \$FN\<close>, used as
  \<^verbatim>\<open>ReplaceAllString(traceMessage, fnName)\<close>. Go expands the replacement as a
  template first: \<^verbatim>\<open>$$\<close> is a dollar, \<^verbatim>\<open>$name\<close> and
  \<^verbatim>\<open>${name}\<close> are a group of the match, empty when the expression has no
  such group. This expression has no group but the whole match, number 0. A name is the
  longest run of letters, digits and underscores; the runes beyond ASCII are not
  classified here, a byte from 0x80 on ends the name.
\<close>

definition isNameByte :: "char \<Rightarrow> bool" where
  "isNameByte c \<longleftrightarrow>
     c \<in> set ''abcdefghijklmnopqrstuvwxyzABCDEFGHIJKLMNOPQRSTUVWXYZ0123456789_''"

definition extractRef :: "string \<Rightarrow> (string \<times> string) option" where
  "extractRef str =
     (let brace = (str \<noteq> [] \<and> hd str = CHR 0x7B);
          s = (if brace then tl str else str);
          name = takeWhile isNameByte s;
          rest = dropWhile isNameByte s
      in if name = [] then None
         else if brace then
           (if rest \<noteq> [] \<and> hd rest = CHR 0x7D then Some (name, tl rest) else None)
         else Some (name, rest))"

lemma extractRef_length:
  assumes "extractRef str = Some (name, rest)"
  shows "length rest \<le> length str"
proof (cases "str \<noteq> [] \<and> hd str = CHR 0x7B")
  case True
  with assms have "rest = tl (dropWhile isNameByte (tl str))"
    by (simp add: extractRef_def Let_def split: if_splits)
  moreover have "length (dropWhile isNameByte (tl str)) \<le> length (tl str)"
    by (rule length_dropWhile_le)
  ultimately show ?thesis
    by simp
next
  case False
  with assms have "rest = dropWhile isNameByte str"
    by (auto simp: extractRef_def Let_def split: if_splits)
  then show ?thesis
    by (simp add: length_dropWhile_le)
qed

function expand :: "string \<Rightarrow> string \<Rightarrow> string" where
  "expand [] m = []"
| "expand (c # t) m =
     (if c \<noteq> CHR ''$'' then c # expand t m
      else if t \<noteq> [] \<and> hd t = CHR ''$'' then CHR ''$'' # expand (tl t) m
      else (case extractRef t of
              None \<Rightarrow> CHR ''$'' # expand t m
            | Some (name, rest) \<Rightarrow> (if name = ''0'' then m else []) @ expand rest m))"
  by pat_completeness auto
termination
  by (relation "measure (\<lambda>(t, m). length t)") (auto dest: extractRef_length)

declare expand.simps [simp del]

text \<open>The leftmost matches of \<^verbatim>\<open>$FN\<close>, none overlapping another, each replaced
  by the expanded replacement.\<close>

fun replaceFN :: "string \<Rightarrow> string \<Rightarrow> string" where
  "replaceFN [] repl = []"
| "replaceFN (c # cs) repl =
     (if take 3 (c # cs) = ''$FN'' then expand repl ''$FN'' @ replaceFN (drop 2 cs) repl
      else c # replaceFN cs repl)"

text \<open>
  \<^verbatim>\<open>time.Duration.String\<close>: a count of nanoseconds as
  \<^verbatim>\<open>72h3m0.5s\<close>, below one second as \<^verbatim>\<open>1.5ms\<close>, with the
  trailing zeros of the fraction dropped. \<open>fmtFrac\<close> is the library's loop over
  the last \<open>prec\<close> digits, writing right to left.
\<close>

fun fmtFrac :: "nat \<Rightarrow> int \<Rightarrow> bool \<Rightarrow> string \<Rightarrow> string \<times> int" where
  "fmtFrac 0 v pr acc = (if pr then CHR ''.'' # acc else acc, v)"
| "fmtFrac (Suc i) v pr acc =
     (let d = v mod 10; pr' = (pr \<or> d \<noteq> 0)
      in fmtFrac i (v div 10) pr' (if pr' then digit d # acc else acc))"

definition DurationString :: "int \<Rightarrow> string" where
  "DurationString d =
     (let u = \<bar>d\<bar>;
          body =
            (if u < 1000000000 then
               (if u = 0 then ''0s''
                else if u < 1000 then
                  (case fmtFrac 0 u False [] of (fr, w) \<Rightarrow> digits w @ fr @ ''ns'')
                else if u < 1000000 then
                  (case fmtFrac 3 u False [] of
                     (fr, w) \<Rightarrow> digits w @ fr @ [CHR 0xC2, CHR 0xB5, CHR ''s''])
                else
                  (case fmtFrac 6 u False [] of (fr, w) \<Rightarrow> digits w @ fr @ ''ms''))
             else
               (case fmtFrac 9 u False [] of
                  (fr, w) \<Rightarrow>
                    (let secs = digits (w mod 60) @ fr @ ''s''; m = w div 60
                     in if m > 0 then
                          (let mins = digits (m mod 60) @ ''m''; h = m div 60
                           in if h > 0 then digits h @ ''h'' @ mins @ secs
                              else mins @ secs)
                        else secs)))
      in if d < 0 then CHR ''-'' # body else body)"

text \<open>
  Instants are nanoseconds counted from Go's zero \<^verbatim>\<open>time.Time\<close>, which is
  what a map of instants returns for a missing key. \<^verbatim>\<open>time.Since(t)\<close> is
  the difference to the clock, kept inside the range of an \<^verbatim>\<open>int64\<close>.
\<close>

definition maxDuration :: int where
  "maxDuration = 9223372036854775807"

definition minDuration :: int where
  "minDuration = - 9223372036854775808"

definition Since :: "int \<Rightarrow> int \<Rightarrow> int" where
  "Since clock t =
     (let d = clock - t
      in if d > maxDuration then maxDuration
         else if d < minDuration then minDuration
         else d)"

subsection \<open>Data model\<close>

text \<open>The dynamic values an \<^verbatim>\<open>interface{}\<close> argument can hold, as far as
  the tracer tells them apart: a string, or something else.\<close>

datatype iface = VString string | VInt int | VBool bool

text \<open>\<^verbatim>\<open>fmt.Sprintf\<close> is a parameter of the model.\<close>

type_synonym sprintf = "string \<Rightarrow> iface list \<Rightarrow> string"

text \<open>
  For the worked examples, the part of \<^verbatim>\<open>fmt.Sprintf\<close> they use: the verbs
  \<^verbatim>\<open>%d\<close> on an integer, \<^verbatim>\<open>%s\<close> on a string,
  \<^verbatim>\<open>%v\<close> on either, and \<^verbatim>\<open>%%\<close>, without flags. It is Go's result
  on a format made of such directives with one operand for each; anything else is
  copied as it stands, which is not what Go prints.
\<close>

fun render :: "iface \<Rightarrow> string" where
  "render (VString x) = x"
| "render (VInt i) = Itoa i"
| "render (VBool b) = (if b then ''true'' else ''false'')"

fun verbFits :: "char \<Rightarrow> iface \<Rightarrow> bool" where
  "verbFits v (VString x) = (v = CHR ''s'' \<or> v = CHR ''v'')"
| "verbFits v (VInt i) = (v = CHR ''d'' \<or> v = CHR ''v'')"
| "verbFits v (VBool b) = (v = CHR ''v'')"

fun SprintfPlain :: sprintf where
  "SprintfPlain [] as = []"
| "SprintfPlain [c] as = [c]"
| "SprintfPlain (c # v # cs) as =
     (if c = CHR ''%'' \<and> v = CHR ''%'' then CHR ''%'' # SprintfPlain cs as
      else if c = CHR ''%'' \<and> as \<noteq> [] \<and> verbFits v (hd as)
           then render (hd as) @ SprintfPlain cs (tl as)
      else c # SprintfPlain (v # cs) as)"

datatype logger = Stdout | Custom nat

record Options =
  DisableTracing :: bool
  CustomLogger :: "logger option"
  DisableDepthValue :: bool
  DisableNesting :: bool
  SpacesPerIndent :: int
  EnterMessage :: string
  ExitMessage :: string
  EnableInstrumentation :: bool

text \<open>The frame \<^verbatim>\<open>runtime.Caller(2)\<close> reports, with the name
  \<^verbatim>\<open>runtime.FuncForPC(pc).Name()\<close> gives for it.\<close>

record frame =
  fr_name :: string
  fr_file :: string
  fr_line :: int

text \<open>What the runtime answers during one call of the tracer: \<^verbatim>\<open>_getGID()\<close>,
  \<^verbatim>\<open>runtime.Caller(2)\<close> (\<^term>\<open>None\<close> when it is not ok), the clock.\<close>

record env =
  gid :: "64 word"
  caller :: "frame option"
  clock :: int

text \<open>The package-level state: \<^verbatim>\<open>currentDepth.d\<close>, \<^verbatim>\<open>entryTime.t\<close>
  (both nil until a \<^verbatim>\<open>New\<close> makes them), and the texts handed to loggers,
  oldest first.\<close>

record gstate =
  currentDepth_d :: "(64 word \<rightharpoonup> int) option"
  entryTime_t :: "(string \<rightharpoonup> int) option"
  written :: "(logger \<times> string) list"

definition initial :: gstate where
  "initial = \<lparr>currentDepth_d = None, entryTime_t = None, written = []\<rparr>"

text \<open>Reading a map, nil or not: the zero value for a missing key.\<close>

definition readDepth :: "gstate \<Rightarrow> 64 word \<Rightarrow> int" where
  "readDepth st g =
     (case currentDepth_d st of
        None \<Rightarrow> 0
      | Some m \<Rightarrow> (case m g of None \<Rightarrow> 0 | Some v \<Rightarrow> v))"

definition readTime :: "gstate \<Rightarrow> string \<Rightarrow> int" where
  "readTime st k =
     (case entryTime_t st of
        None \<Rightarrow> 0
      | Some m \<Rightarrow> (case m k of None \<Rightarrow> 0 | Some v \<Rightarrow> v))"

definition andThen :: "error + 'a \<Rightarrow> ('a \<Rightarrow> error + 'b) \<Rightarrow> error + 'b" where
  "andThen r f = (case r of Inl e \<Rightarrow> Inl e | Inr v \<Rightarrow> f v)"

text \<open>\<^verbatim>\<open>options.CustomLogger.Printf\<close> and \<^verbatim>\<open>Println\<close>: the text goes
  to the logger; a nil logger panics.\<close>

definition logTo :: "Options \<Rightarrow> string \<Rightarrow> gstate \<Rightarrow> error + gstate" where
  "logTo options text st =
     (case CustomLogger options of
        None \<Rightarrow> Inl NilLogger
      | Some lg \<Rightarrow> Inr (st\<lparr>written := written st @ [(lg, text)]\<rparr>))"

subsection \<open>The closures of New\<close>

definition spacify :: "Options \<Rightarrow> env \<Rightarrow> gstate \<Rightarrow> error + string" where
  "spacify options e st =
     (if \<not> DisableNesting options then
        (let d = readDepth st (gid e)
         in andThen (Repeat (wrap64 (d * SpacesPerIndent options)))
              (\<lambda>spaces.
                 if \<not> DisableDepthValue options
                 then Inr (''['' @ pad2 d @ '']'' @ spaces)
                 else Inr spaces))
      else Inr [])"

text \<open>Writing a map entry: a nil map panics.\<close>

definition writeDepth :: "gstate \<Rightarrow> 64 word \<Rightarrow> int \<Rightarrow> error + gstate" where
  "writeDepth st g v =
     (case currentDepth_d st of
        None \<Rightarrow> Inl NilMapWrite
      | Some m \<Rightarrow> Inr (st\<lparr>currentDepth_d := Some (m(g \<mapsto> v))\<rparr>))"

definition writeTime :: "gstate \<Rightarrow> string \<Rightarrow> int \<Rightarrow> error + gstate" where
  "writeTime st k v =
     (case entryTime_t st of
        None \<Rightarrow> Inl NilMapWrite
      | Some m \<Rightarrow> Inr (st\<lparr>entryTime_t := Some (m(k \<mapsto> v))\<rparr>))"

text \<open>\<^verbatim>\<open>delete(entryTime.t, k)\<close>: nothing happens on a nil map or a missing
  key.\<close>

definition deleteTime :: "gstate \<Rightarrow> string \<Rightarrow> gstate" where
  "deleteTime st k =
     (case entryTime_t st of
        None \<Rightarrow> st
      | Some m \<Rightarrow> st\<lparr>entryTime_t := Some (m(k := None))\<rparr>)"

definition incrementDepth :: "Options \<Rightarrow> env \<Rightarrow> gstate \<Rightarrow> error + gstate" where
  "incrementDepth options e st =
     (if \<not> DisableNesting options
      then writeDepth st (gid e) (readDepth st (gid e) + 1)
      else Inr st)"

definition warning :: string where
  "warning = ''Warning: depth became negative in tracey, when attempting to decrement.''"

definition decrementDepth :: "Options \<Rightarrow> env \<Rightarrow> gstate \<Rightarrow> error + gstate" where
  "decrementDepth options e st =
     (if \<not> DisableNesting options then
        andThen (writeDepth st (gid e) (readDepth st (gid e) - 1))
          (\<lambda>st1.
             if readDepth st1 (gid e) < 0 then
               andThen (logTo options (warning @ [CHR 0x0A]) st1)
                 (\<lambda>st2. writeDepth st2 (gid e) 0)
             else Inr st1)
      else Inr st)"

definition getname :: "sprintf \<Rightarrow> env \<Rightarrow> iface list \<Rightarrow> string" where
  "getname Sprintf e s =
     (let fnName1 = (case caller e of
                       None \<Rightarrow> ''<unknown>''
                     | Some fr \<Rightarrow> stripFnPreamble (fr_name fr));
          fnName = (if fnName1 = [] then
                      (case caller e of
                         None \<Rightarrow> [] @ Itoa 0
                       | Some fr \<Rightarrow> fr_file fr @ Itoa (fr_line fr))
                    else fnName1);
          tid = ''[tid:'' @ FormatUint (gid e);
          (tid', traceMessage) =
            (case s of
               [] \<Rightarrow> (tid, [])
             | VString fmtStr # rest \<Rightarrow>
                 if length s = 1 then (tid @ '' - '' @ fmtStr, [])
                 else (tid, Sprintf fmtStr rest)
             | _ # rest \<Rightarrow> (tid, []))
      in tid' @ '']=>'' @ replaceFN traceMessage fnName)"

text \<open>The name \<^verbatim>\<open>_exit\<close> prints: the label of a call without arguments,
  followed under instrumentation by the time since the instant stored for that label.
  The same variable \<^verbatim>\<open>fname\<close> is the key of the \<^verbatim>\<open>delete\<close> at the
  end of \<^verbatim>\<open>_exit\<close>.\<close>

definition exitName :: "sprintf \<Rightarrow> Options \<Rightarrow> env \<Rightarrow> gstate \<Rightarrow> string" where
  "exitName Sprintf options e st =
     (let fname = getname Sprintf e []
      in if EnableInstrumentation options
         then fname @ '' ... in '' @ DurationString (Since (clock e) (readTime st fname))
         else fname)"

definition exit :: "sprintf \<Rightarrow> Options \<Rightarrow> env \<Rightarrow> gstate \<Rightarrow> error + gstate" where
  "exit Sprintf options e st =
     andThen (decrementDepth options e st)
       (\<lambda>st1.
          let fname = exitName Sprintf options e st1
          in andThen (spacify options e st1)
               (\<lambda>sp.
                  andThen (logTo options (sp @ ExitMessage options @ fname @ [CHR 0x0A]) st1)
                    (\<lambda>st2.
                       if EnableInstrumentation options
                       then Inr (deleteTime st2 fname)
                       else Inr st2)))"

definition enter :: "sprintf \<Rightarrow> Options \<Rightarrow> env \<Rightarrow> iface list \<Rightarrow> gstate \<Rightarrow> error + gstate" where
  "enter Sprintf options e s st =
     (let fname = getname Sprintf e s
      in andThen
           (if EnableInstrumentation options
            then writeTime st fname (clock e)
            else Inr st)
           (\<lambda>st1.
              andThen (spacify options e st1)
                (\<lambda>sp.
                   andThen (logTo options (sp @ EnterMessage options @ fname @ [CHR 0x0A]) st1)
                     (\<lambda>st2. incrementDepth options e st2))))"

subsection \<open>New\<close>

text \<open>What \<^verbatim>\<open>New\<close> returns: the no-op function, or the closure
  \<^verbatim>\<open>_enter\<close> over the completed options. The function an enter call returns is
  the no-op, or \<^verbatim>\<open>_exit\<close> over the same options.\<close>

datatype tracer = Noop | Tracer Options

definition zeroOptions :: Options where
  "zeroOptions =
     \<lparr>DisableTracing = False, CustomLogger = None, DisableDepthValue = False,
      DisableNesting = False, SpacesPerIndent = 0, EnterMessage = [], ExitMessage = [],
      EnableInstrumentation = False\<rparr>"

definition New :: "Options option \<Rightarrow> gstate \<Rightarrow> tracer \<times> gstate" where
  "New opts st =
     (let options = (case opts of None \<Rightarrow> zeroOptions | Some given \<Rightarrow> given)
      in if DisableTracing options then (Noop, st)
         else
           (let o1 = (if CustomLogger options = None
                      then options\<lparr>CustomLogger := Some Stdout\<rparr> else options);
                o2 = (if EnterMessage o1 = [] then o1\<lparr>EnterMessage := ''ENTER: ''\<rparr> else o1);
                o3 = (if ExitMessage o2 = [] then o2\<lparr>ExitMessage := ''EXIT:  ''\<rparr> else o2);
                o4 = (if DisableNesting o3 then o3\<lparr>SpacesPerIndent := 0\<rparr>
                      else if SpacesPerIndent o3 = 0 then o3\<lparr>SpacesPerIndent := 2\<rparr>
                      else o3);
                st1 = (if DisableNesting o3 then st
                       else st\<lparr>currentDepth_d := Some Map.empty\<rparr>);
                st2 = (if EnableInstrumentation o4
                       then st1\<lparr>entryTime_t := Some Map.empty\<rparr> else st1)
            in (Tracer o4, st2)))"

definition callEnter :: "sprintf \<Rightarrow> tracer \<Rightarrow> env \<Rightarrow> iface list \<Rightarrow> gstate \<Rightarrow> error + gstate" where
  "callEnter Sprintf tr e s st =
     (case tr of Noop \<Rightarrow> Inr st | Tracer options \<Rightarrow> enter Sprintf options e s st)"

definition callExit :: "sprintf \<Rightarrow> tracer \<Rightarrow> env \<Rightarrow> gstate \<Rightarrow> error + gstate" where
  "callExit Sprintf tr e st =
     (case tr of Noop \<Rightarrow> Inr st | Tracer options \<Rightarrow> exit Sprintf options e st)"

text \<open>A sequence of calls through one tracer; a panic ends it.\<close>

datatype call = CEnter env "iface list" | CExit env

fun step :: "sprintf \<Rightarrow> tracer \<Rightarrow> call \<Rightarrow> gstate \<Rightarrow> error + gstate" where
  "step Sprintf tr (CEnter e s) st = callEnter Sprintf tr e s st"
| "step Sprintf tr (CExit e) st = callExit Sprintf tr e st"

fun run :: "sprintf \<Rightarrow> tracer \<Rightarrow> call list \<Rightarrow> gstate \<Rightarrow> error + gstate" where
  "run Sprintf tr [] st = Inr st"
| "run Sprintf tr (c # cs) st = andThen (step Sprintf tr c st) (run Sprintf tr cs)"

subsection \<open>Inputs of the worked examples\<close>

text \<open>A call from \<^verbatim>\<open>func foo\<close> of package \<^verbatim>\<open>main\<close> on goroutine 1;
  the clock reads midnight of 1 January 2026, in nanoseconds from the zero instant.\<close>

definition demoEnv :: env where
  "demoEnv =
     \<lparr>gid = 1,
      caller = Some \<lparr>fr_name = ''main.foo'', fr_file = ''/src/foo.go'', fr_line = 12\<rparr>,
      clock = 63902822400000000000\<rparr>"

text \<open>Options as a caller gives them, and as \<^verbatim>\<open>New\<close> completes them; the state
  after a first \<^verbatim>\<open>New(nil)\<close>.\<close>

definition demoNoNesting :: Options where
  "demoNoNesting = zeroOptions\<lparr>DisableNesting := True\<rparr>"

definition demoDisabled :: Options where
  "demoDisabled = zeroOptions\<lparr>DisableTracing := True\<rparr>"

definition demoNoNestingDone :: Options where
  "demoNoNestingDone =
     \<lparr>DisableTracing = False, CustomLogger = Some Stdout, DisableDepthValue = False,
      DisableNesting = True, SpacesPerIndent = 0, EnterMessage = ''ENTER: '',
      ExitMessage = ''EXIT:  '', EnableInstrumentation = False\<rparr>"

definition demoDefaults :: Options where
  "demoDefaults =
     \<lparr>DisableTracing = False, CustomLogger = Some Stdout, DisableDepthValue = False,
      DisableNesting = False, SpacesPerIndent = 2, EnterMessage = ''ENTER: '',
      ExitMessage = ''EXIT:  '', EnableInstrumentation = False\<rparr>"

definition demoFresh :: gstate where
  "demoFresh = \<lparr>currentDepth_d = Some Map.empty, entryTime_t = None, written = []\<rparr>"

text \<open>The state two enter calls without arguments after a first \<^verbatim>\<open>New(nil)\<close>.\<close>

definition demoDeep :: gstate where
  "demoDeep =
     \<lparr>currentDepth_d = Some [1 \<mapsto> 2], entryTime_t = None,
      written = [(Stdout, ''[ 0]ENTER: [tid:1]=>'' @ [CHR 0x0A]),
                 (Stdout, ''[ 1]  ENTER: [tid:1]=>'' @ [CHR 0x0A])]\<rparr>"

text \<open>Calls that nest on one goroutine: \<open>nestOk k\<close> holds of a sequence that
  closes the \<open>k\<close> calls open before it and every call it opens, never closing more
  than are open. \<open>allocated\<close> is what \<^verbatim>\<open>New\<close> establishes for its closures:
  the maps they write exist.\<close>

fun callGid :: "call \<Rightarrow> 64 word" where
  "callGid (CEnter e s) = gid e"
| "callGid (CExit e) = gid e"

fun nestOk :: "nat \<Rightarrow> call list \<Rightarrow> bool" where
  "nestOk k [] = (k = 0)"
| "nestOk k (CEnter e s # cs) = nestOk (Suc k) cs"
| "nestOk k (CExit e # cs) = (0 < k \<and> nestOk (k - 1) cs)"

definition allocated :: "Options \<Rightarrow> gstate \<Rightarrow> bool" where
  "allocated options st \<longleftrightarrow>
     (\<not> DisableNesting options \<longrightarrow> currentDepth_d st \<noteq> None) \<and>
     (EnableInstrumentation options \<longrightarrow> entryTime_t st \<noteq> None)"

text \<open>A call from a function of an imported package on goroutine 7, and a second
  tracer, told apart from the default one by its enter message.\<close>

definition demoEnvPath :: env where
  "demoEnvPath =
     \<lparr>gid = 7,
      caller = Some \<lparr>fr_name = ''github.com/sujitvp/go-tracey.foo'',
                      fr_file = ''/src/tracey_test.go'', fr_line = 40\<rparr>,
      clock = 63902822400000000000\<rparr>"

definition demoB :: Options where
  "demoB = zeroOptions\<lparr>EnterMessage := ''B> ''\<rparr>"

definition demoBDone :: Options where
  "demoBDone =
     \<lparr>DisableTracing = False, CustomLogger = Some Stdout, DisableDepthValue = False,
      DisableNesting = False, SpacesPerIndent = 2, EnterMessage = ''B> '',
      ExitMessage = ''EXIT:  '', EnableInstrumentation = False\<rparr>"

text \<open>The entry of the timing table under a key, if there is one; a tracer with
  instrumentation, as given and as completed, the state after its \<^verbatim>\<open>New\<close>, and the
  same caller 1.5 milliseconds later.\<close>

definition lookupTime :: "gstate \<Rightarrow> string \<Rightarrow> int option" where
  "lookupTime st k = (case entryTime_t st of None \<Rightarrow> None | Some m \<Rightarrow> m k)"

definition demoTimed :: Options where
  "demoTimed = zeroOptions\<lparr>EnableInstrumentation := True\<rparr>"

definition demoTimedDone :: Options where
  "demoTimedDone =
     \<lparr>DisableTracing = False, CustomLogger = Some Stdout, DisableDepthValue = False,
      DisableNesting = False, SpacesPerIndent = 2, EnterMessage = ''ENTER: '',
      ExitMessage = ''EXIT:  '', EnableInstrumentation = True\<rparr>"

definition demoTimedFresh :: gstate where
  "demoTimedFresh =
     \<lparr>currentDepth_d = Some Map.empty, entryTime_t = Some Map.empty, written = []\<rparr>"

definition demoEnvLater :: env where
  "demoEnvLater = demoEnv\<lparr>clock := 63902822400001500000\<rparr>"

section \<open>Auxiliary facts\<close>

lemma andThen_Inr [simp]: "andThen (Inr v) f = f v"
  by (simp add: andThen_def)

lemma andThen_Inl [simp]: "andThen (Inl e) f = Inl e"
  by (simp add: andThen_def)

lemma FormatUint_1: "FormatUint 1 = ''1''"
  by (simp add: FormatUint_def digits.simps digit_def)

lemma logTo_Some:
  "CustomLogger options = Some lg \<Longrightarrow>
   logTo options text st = Inr (st\<lparr>written := written st @ [(lg, text)]\<rparr>)"
  by (simp add: logTo_def)

lemma spacify_nesting_off: "DisableNesting options \<Longrightarrow> spacify options e st = Inr []"
  by (simp add: spacify_def)

lemma writeTime_allocated:
  "entryTime_t st = Some t \<Longrightarrow>
   writeTime st k v = Inr (st\<lparr>entryTime_t := Some (t(k \<mapsto> v))\<rparr>)"
  by (simp add: writeTime_def)

lemma writeDepth_allocated:
  "currentDepth_d st = Some m \<Longrightarrow>
   writeDepth st g v = Inr (st\<lparr>currentDepth_d := Some (m(g \<mapsto> v))\<rparr>)"
  by (simp add: writeDepth_def)

lemma pad2_0: "pad2 0 = '' 0''"
  by (simp add: pad2_def Itoa_def digits.simps digit_def)

lemma readTime_depth_update [simp]:
  "readTime (st\<lparr>currentDepth_d := x\<rparr>) k = readTime st k"
  by (simp add: readTime_def)

lemma readTime_written_update [simp]:
  "readTime (st\<lparr>written := x\<rparr>) k = readTime st k"
  by (simp add: readTime_def)

lemma exitName_depth_update [simp]:
  "exitName Sprintf options e (st\<lparr>currentDepth_d := x\<rparr>) = exitName Sprintf options e st"
  by (simp add: exitName_def Let_def)

lemma exitName_written_update [simp]:
  "exitName Sprintf options e (st\<lparr>written := x\<rparr>) = exitName Sprintf options e st"
  by (simp add: exitName_def Let_def)

lemma readDepth_written_update [simp]:
  "readDepth (st\<lparr>written := x\<rparr>) g = readDepth st g"
  by (simp add: readDepth_def)

lemma readDepth_time_update [simp]:
  "readDepth (st\<lparr>entryTime_t := x\<rparr>) g = readDepth st g"
  by (simp add: readDepth_def)

lemma readDepth_depth_update [simp]:
  "readDepth (st\<lparr>currentDepth_d := Some (m(g \<mapsto> v))\<rparr>) g' = (if g' = g then v else readDepth (st\<lparr>currentDepth_d := Some m\<rparr>) g')"
  by (simp add: readDepth_def)

lemma readDepth_deleteTime [simp]: "readDepth (deleteTime st k) g = readDepth st g"
  by (simp add: deleteTime_def readDepth_def split: option.splits)

lemma written_deleteTime [simp]: "written (deleteTime st k) = written st"
  by (simp add: deleteTime_def split: option.splits)

lemma New_nil_initial: "New None initial = (Tracer demoDefaults, demoFresh)"
  by (simp add: New_def zeroOptions_def demoDefaults_def demoFresh_def initial_def)

lemma New_demoNoNesting:
  "New (Some demoNoNesting) initial = (Tracer demoNoNestingDone, initial)"
  by (simp add: New_def zeroOptions_def demoNoNesting_def demoNoNestingDone_def)

lemma getname_demoEnv_nil: "getname Sprintf demoEnv [] = ''[tid:1]=>''"
  by (simp add: getname_def Let_def demoEnv_def FormatUint_1)

lemma wrap64_sint: "wrap64 x = sint (word_of_int x :: 64 word)"
  by (simp add: wrap64_def int_word_sint)

lemma wrap64_id:
  "- 9223372036854775808 \<le> x \<Longrightarrow> x < 9223372036854775808 \<Longrightarrow> wrap64 x = x"
  by (simp add: wrap64_def)

lemma indent_bound:
  fixes d D spi B :: int
  assumes "0 \<le> spi" and "0 \<le> d" and "d \<le> D" and "D * spi < B"
  shows "0 \<le> d * spi \<and> d * spi < B"
proof -
  have "d * spi \<le> D * spi"
    using assms(1,3) by (rule mult_right_mono [rotated])
  with assms show ?thesis
    by (simp add: mult_nonneg_nonneg)
qed

lemma spacify_value:
  assumes "\<not> DisableNesting options"
    and "0 \<le> readDepth st (gid e) * SpacesPerIndent options"
    and "readDepth st (gid e) * SpacesPerIndent options < 2147483648"
  shows "spacify options e st =
           Inr ((if DisableDepthValue options then []
                 else ''['' @ pad2 (readDepth st (gid e)) @ '']'') @
                replicate (nat (readDepth st (gid e) * SpacesPerIndent options)) CHR '' '')"
proof -
  have "wrap64 (readDepth st (gid e) * SpacesPerIndent options) =
          readDepth st (gid e) * SpacesPerIndent options"
    using assms(2,3) by (intro wrap64_id) simp_all
  then show ?thesis
    using assms(1,2) by (simp add: spacify_def Repeat_def Let_def)
qed

lemma spacify_same_depth:
  "readDepth st1 (gid e1) = readDepth st2 (gid e2) \<Longrightarrow>
   spacify options e1 st1 = spacify options e2 st2"
  by (simp add: spacify_def)

lemma stamp_ok:
  assumes "allocated options st"
  shows "\<exists>st1. (if EnableInstrumentation options then writeTime st k v else Inr st) = Inr st1
          \<and> currentDepth_d st1 = currentDepth_d st
          \<and> written st1 = written st
          \<and> allocated options st1"
proof (cases "EnableInstrumentation options")
  case True
  with assms obtain t where "entryTime_t st = Some t"
    by (auto simp: allocated_def)
  with True assms show ?thesis
    by (simp add: writeTime_allocated allocated_def)
next
  case False
  with assms show ?thesis
    by simp
qed

lemma readDepth_cong: "currentDepth_d st1 = currentDepth_d st2 \<Longrightarrow> readDepth st1 g = readDepth st2 g"
  by (simp add: readDepth_def)

lemma enter_nested:
  assumes nest: "\<not> DisableNesting options"
    and lg: "CustomLogger options = Some lg"
    and al: "allocated options st"
    and sp: "spacify options e st = Inr sp"
  shows "\<exists>st'. enter Sprintf options e s st = Inr st'
          \<and> written st' =
              written st @ [(lg, sp @ EnterMessage options @ getname Sprintf e s @ [CHR 0x0A])]
          \<and> readDepth st' (gid e) = readDepth st (gid e) + 1
          \<and> (\<forall>g. g \<noteq> gid e \<longrightarrow> readDepth st' g = readDepth st g)
          \<and> allocated options st'"
proof -
  from stamp_ok [OF al] obtain st1 where
    st1: "(if EnableInstrumentation options
           then writeTime st (getname Sprintf e s) (clock e) else Inr st) = Inr st1"
    and d1: "currentDepth_d st1 = currentDepth_d st"
    and w1: "written st1 = written st"
    and a1: "allocated options st1"
    by blast
  have "readDepth st1 (gid e) = readDepth st (gid e)"
    by (rule readDepth_cong [OF d1])
  from spacify_same_depth [OF this] sp have sp1: "spacify options e st1 = Inr sp"
    by simp
  from a1 nest obtain m where m: "currentDepth_d st1 = Some m"
    by (auto simp: allocated_def)
  define st' where
    "st' = st1\<lparr>written := written st1 @
                   [(lg, sp @ EnterMessage options @ getname Sprintf e s @ [CHR 0x0A])],
                 currentDepth_d := Some (m(gid e \<mapsto> readDepth st1 (gid e) + 1))\<rparr>"
  have "enter Sprintf options e s st = Inr st'"
    using nest lg m
    by (simp add: enter_def Let_def st1 sp1 logTo_Some incrementDepth_def
        writeDepth_allocated st'_def)
  moreover have "written st' =
      written st @ [(lg, sp @ EnterMessage options @ getname Sprintf e s @ [CHR 0x0A])]"
    by (simp add: st'_def w1)
  moreover have "readDepth st' (gid e) = readDepth st (gid e) + 1"
    using readDepth_cong [OF d1] by (simp add: st'_def)
  moreover have "\<forall>g. g \<noteq> gid e \<longrightarrow> readDepth st' g = readDepth st g"
    using readDepth_cong [OF d1] m by (simp add: st'_def readDepth_def)
  moreover have "allocated options st'"
    using a1 by (simp add: allocated_def st'_def)
  ultimately show ?thesis
    by blast
qed

lemma exit_nested:
  assumes nest: "\<not> DisableNesting options"
    and lg: "CustomLogger options = Some lg"
    and spi: "0 \<le> SpacesPerIndent options"
    and wide: "D * SpacesPerIndent options < 2147483648"
    and al: "allocated options st"
    and pos: "0 < readDepth st (gid e)"
    and le: "readDepth st (gid e) \<le> D"
  shows "\<exists>st' sp. exit Sprintf options e st = Inr st'
          \<and> spacify options e st' = Inr sp
          \<and> written st' =
              written st @
              [(lg, sp @ ExitMessage options @ exitName Sprintf options e st @ [CHR 0x0A])]
          \<and> readDepth st' (gid e) = readDepth st (gid e) - 1
          \<and> (\<forall>g. g \<noteq> gid e \<longrightarrow> readDepth st' g = readDepth st g)
          \<and> allocated options st'"
proof -
  from al nest obtain m where m: "currentDepth_d st = Some m"
    by (auto simp: allocated_def)
  define st1 where "st1 = st\<lparr>currentDepth_d := Some (m(gid e \<mapsto> readDepth st (gid e) - 1))\<rparr>"
  have dec: "decrementDepth options e st = Inr st1"
    using nest m pos by (simp add: decrementDepth_def writeDepth_allocated st1_def)
  have d1: "readDepth st1 (gid e) = readDepth st (gid e) - 1"
    by (simp add: st1_def)
  have "0 \<le> readDepth st1 (gid e) * SpacesPerIndent options
      \<and> readDepth st1 (gid e) * SpacesPerIndent options < 2147483648"
    using spi wide pos le d1 by (intro indent_bound [where D = D]) simp_all
  with spacify_value [OF nest, of st1 e] obtain sp where sp: "spacify options e st1 = Inr sp"
    by blast
  have nm: "exitName Sprintf options e st1 = exitName Sprintf options e st"
    by (simp add: st1_def)
  define st2 where
    "st2 = st1\<lparr>written := written st1 @
                  [(lg, sp @ ExitMessage options @ exitName Sprintf options e st @ [CHR 0x0A])]\<rparr>"
  define st' where
    "st' = (if EnableInstrumentation options
            then deleteTime st2 (exitName Sprintf options e st) else st2)"
  have ex: "exit Sprintf options e st = Inr st'"
    using lg by (simp add: exit_def dec sp nm Let_def logTo_Some st2_def st'_def)
  have rd: "\<And>g. readDepth st' g = readDepth st1 g"
    by (simp add: st'_def st2_def)
  have "spacify options e st' = Inr sp"
    using sp spacify_same_depth [of st' e st1 e options] rd by simp
  moreover have "written st' =
      written st @ [(lg, sp @ ExitMessage options @ exitName Sprintf options e st @ [CHR 0x0A])]"
    by (simp add: st'_def st2_def st1_def)
  moreover have "readDepth st' (gid e) = readDepth st (gid e) - 1"
    by (simp add: rd d1)
  moreover have "\<forall>g. g \<noteq> gid e \<longrightarrow> readDepth st' g = readDepth st g"
    using m by (simp add: rd) (simp add: st1_def readDepth_def)
  moreover have "allocated options st'"
    using al by (auto simp: allocated_def st'_def st2_def st1_def deleteTime_def
        split: option.splits)
  ultimately show ?thesis
    using ex by blast
qed

lemma run_nested:
  assumes nest: "\<not> DisableNesting options"
    and lg: "CustomLogger options = Some lg"
    and spi: "0 \<le> SpacesPerIndent options"
    and wide: "D * SpacesPerIndent options < 2147483648"
  shows "\<forall>c \<in> set cs. callGid c = g \<Longrightarrow> nestOk k cs \<Longrightarrow> allocated options st \<Longrightarrow>
         int k \<le> readDepth st g \<Longrightarrow> readDepth st g + int (length cs) \<le> D \<Longrightarrow>
         \<exists>st'. run Sprintf (Tracer options) cs st = Inr st'
           \<and> allocated options st'
           \<and> readDepth st' g = readDepth st g - int k"
proof (induction cs arbitrary: k st)
  case Nil
  then show ?case
    by simp
next
  case (Cons c cs)
  show ?case
  proof (cases c)
    case (CEnter e s)
    with Cons.prems have g: "gid e = g"
      by simp
    from Cons.prems(4,5) have "0 \<le> readDepth st (gid e)" and "readDepth st (gid e) \<le> D"
      by (simp_all add: g)
    with spi wide have "0 \<le> readDepth st (gid e) * SpacesPerIndent options
        \<and> readDepth st (gid e) * SpacesPerIndent options < 2147483648"
      by (intro indent_bound [where D = D])
    with spacify_value [OF nest, of st e] obtain sp where "spacify options e st = Inr sp"
      by blast
    from enter_nested [OF nest lg Cons.prems(3) this, of Sprintf s]
    obtain st1 where st1: "enter Sprintf options e s st = Inr st1"
      and a1: "allocated options st1"
      and d1: "readDepth st1 g = readDepth st g + 1"
      by (auto simp: g)
    have "\<exists>st'. run Sprintf (Tracer options) cs st1 = Inr st'
           \<and> allocated options st'
           \<and> readDepth st' g = readDepth st1 g - int (Suc k)"
      using Cons.prems CEnter d1 a1 by (intro Cons.IH) simp_all
    then show ?thesis
      using st1 d1 by (simp add: CEnter callEnter_def)
  next
    case (CExit e)
    with Cons.prems have g: "gid e = g" and k: "0 < k" and rest: "nestOk (k - 1) cs"
      by simp_all
    from Cons.prems(4) k have pos: "0 < readDepth st (gid e)"
      by (simp add: g)
    from Cons.prems(5) have le: "readDepth st (gid e) \<le> D"
      by (simp add: g)
    from exit_nested [OF nest lg spi wide Cons.prems(3) pos le, of Sprintf]
    obtain st1 where st1: "exit Sprintf options e st = Inr st1"
      and a1: "allocated options st1"
      and d1: "readDepth st1 g = readDepth st g - 1"
      by (auto simp: g)
    have "\<exists>st'. run Sprintf (Tracer options) cs st1 = Inr st'
           \<and> allocated options st'
           \<and> readDepth st' g = readDepth st1 g - int (k - 1)"
      using Cons.prems rest d1 a1 k by (intro Cons.IH) simp_all
    then show ?thesis
      using st1 d1 k by (auto simp: CExit callExit_def)
  qed
qed

lemma run_append:
  "run Sprintf tr (xs @ ys) st = andThen (run Sprintf tr xs st) (run Sprintf tr ys)"
proof (induction xs arbitrary: st)
  case Nil
  show ?case by simp
next
  case (Cons x xs)
  show ?case
    by (cases "step Sprintf tr x st") (simp_all add: Cons.IH)
qed

text \<open>The example of the README, run through the model: eight lines at depths
  0, 1, 2, 3, 3, 2, 1, 0.\<close>

lemma readme_round_trip:
  "map_sum id written
     (run SprintfPlain (Tracer demoDefaults)
        [CEnter demoEnv [VString ''main''],
         CEnter demoEnv [VString ''$FN(%d)'', VInt 2],
         CEnter demoEnv [VString ''$FN(%d)'', VInt 1],
         CEnter demoEnv [VString ''$FN(%d)'', VInt 0],
         CExit demoEnv, CExit demoEnv, CExit demoEnv, CExit demoEnv] demoFresh) =
   Inr [(Stdout, ''[ 0]ENTER: [tid:1 - main]=>'' @ [CHR 0x0A]),
        (Stdout, ''[ 1]  ENTER: [tid:1]=>main.foo(2)'' @ [CHR 0x0A]),
        (Stdout, ''[ 2]    ENTER: [tid:1]=>main.foo(1)'' @ [CHR 0x0A]),
        (Stdout, ''[ 3]      ENTER: [tid:1]=>main.foo(0)'' @ [CHR 0x0A]),
        (Stdout, ''[ 3]      EXIT:  [tid:1]=>'' @ [CHR 0x0A]),
        (Stdout, ''[ 2]    EXIT:  [tid:1]=>'' @ [CHR 0x0A]),
        (Stdout, ''[ 1]  EXIT:  [tid:1]=>'' @ [CHR 0x0A]),
        (Stdout, ''[ 0]EXIT:  [tid:1]=>'' @ [CHR 0x0A])]"
  by code_simp

lemma lastGroup_None: "lastGroup s = None \<longleftrightarrow> CHR ''/'' \<notin> set s"
  by (induction s) (auto split: option.splits)

lemma lastGroup_Some:
  "lastGroup s = Some g \<Longrightarrow> \<exists>pre. s = pre @ CHR ''/'' # g \<and> CHR ''/'' \<notin> set g"
proof (induction s)
  case Nil
  then show ?case by simp
next
  case (Cons c s)
  show ?case
  proof (cases "lastGroup s")
    case None
    with Cons.prems have "c = CHR ''/''" and "g = s"
      by (simp_all split: if_splits)
    moreover from None have "CHR ''/'' \<notin> set s"
      by (simp add: lastGroup_None)
    ultimately show ?thesis
      by (intro exI [of _ "[]"]) simp
  next
    case (Some h)
    with Cons.prems have "h = g"
      by simp
    with Some Cons.IH obtain pre where "s = pre @ CHR ''/'' # g" and "CHR ''/'' \<notin> set g"
      by auto
    then show ?thesis
      by (intro exI [of _ "c # pre"]) simp
  qed
qed

lemma stripFnPreamble_no_slash:
  assumes "CHR 0x0A \<notin> set name"
  shows "CHR ''/'' \<notin> set (stripFnPreamble name)"
proof (cases "lastGroup name")
  case None
  with assms show ?thesis
    by (simp add: stripFnPreamble_def lastGroup_None [symmetric])
next
  case (Some g)
  with assms lastGroup_Some [OF Some] show ?thesis
    by (auto simp: stripFnPreamble_def)
qed

lemma stripFnPreamble_suffix:
  assumes "CHR 0x0A \<notin> set name"
  shows "\<exists>pre. name = pre @ stripFnPreamble name \<and> (pre = [] \<or> last pre = CHR ''/'')"
proof (cases "lastGroup name")
  case None
  with assms show ?thesis
    by (simp add: stripFnPreamble_def)
next
  case (Some g)
  from lastGroup_Some [OF Some] obtain pre where "name = pre @ CHR ''/'' # g"
    by blast
  then have "name = (pre @ [CHR ''/'']) @ g" and "last (pre @ [CHR ''/'']) = CHR ''/''"
    by simp_all
  moreover have "stripFnPreamble name = g"
    using assms Some by (simp add: stripFnPreamble_def)
  ultimately have "name = (pre @ [CHR ''/'']) @ stripFnPreamble name
      \<and> (pre @ [CHR ''/''] = [] \<or> last (pre @ [CHR ''/'']) = CHR ''/'')"
    by simp
  then show ?thesis
    by (rule exI)
qed

lemma expand_no_dollar: "CHR ''$'' \<notin> set r \<Longrightarrow> expand r m = r"
proof (induction r)
  case Nil
  show ?case
    by (simp add: expand.simps)
next
  case (Cons c r)
  then have "c \<noteq> CHR ''$''" and "expand r m = r"
    by auto
  then show ?case
    by (simp add: expand.simps)
qed

lemma replaceFN_example: "replaceFN ''$FN(2)'' fn = expand fn ''$FN'' @ ''(2)''"
  by simp

lemma New_demoB: "New (Some demoB) demoFresh = (Tracer demoBDone, demoFresh)"
  by (simp add: New_def zeroOptions_def demoB_def demoBDone_def demoFresh_def)

lemma enter_depth:
  assumes "\<not> DisableNesting oa" and "enter Sprintf oa e s st = Inr st'"
  shows "readDepth st' (gid e) = readDepth st (gid e) + 1"
  using assms
  by (auto simp: enter_def Let_def andThen_def logTo_def incrementDepth_def writeDepth_def
      writeTime_def readDepth_def
      split: sum.splits option.splits if_splits)

lemma enter_time:
  assumes "EnableInstrumentation oa" and "enter Sprintf oa e s st = Inr st'"
  shows "readTime st' (getname Sprintf e s) = clock e"
  using assms
  by (auto simp: enter_def Let_def andThen_def logTo_def incrementDepth_def writeDepth_def
      writeTime_def readTime_def
      split: sum.splits option.splits if_splits)

lemma exit_depth:
  assumes "\<not> DisableNesting oa" and "exit Sprintf oa e st = Inr st'"
  shows "readDepth st' (gid e) = max 0 (readDepth st (gid e) - 1)"
  using assms
  by (auto simp: exit_def Let_def andThen_def logTo_def decrementDepth_def writeDepth_def
      deleteTime_def readDepth_def
      split: sum.splits option.splits if_splits)

lemma New_demoTimed: "New (Some demoTimed) initial = (Tracer demoTimedDone, demoTimedFresh)"
  by (simp add: New_def zeroOptions_def demoTimed_def demoTimedDone_def demoTimedFresh_def
      initial_def)

lemma lookupTime_deleteTime:
  "k \<noteq> k' \<Longrightarrow> lookupTime (deleteTime st k') k = lookupTime st k"
  by (simp add: lookupTime_def deleteTime_def split: option.splits)

lemma lookupTime_other_fields [simp]:
  "lookupTime (st\<lparr>written := w\<rparr>) k = lookupTime st k"
  "lookupTime (st\<lparr>currentDepth_d := d\<rparr>) k = lookupTime st k"
  by (simp_all add: lookupTime_def)

lemma exit_keeps_plain_label:
  assumes "EnableInstrumentation options" and "exit Sprintf options e st = Inr st'"
  shows "lookupTime st' (getname Sprintf e []) = lookupTime st (getname Sprintf e [])"
proof -
  have ne: "getname Sprintf e [] \<noteq> exitName Sprintf options e st0" for st0
    using assms(1) by (simp add: exitName_def Let_def)
  show ?thesis
    using assms
    by (auto simp: exit_def Let_def andThen_def logTo_def decrementDepth_def writeDepth_def
        lookupTime_deleteTime [OF ne]
        split: sum.splits option.splits if_splits)
qed

lemma DurationString_max: "DurationString maxDuration = ''2562047h47m16.854775807s''"
  by (simp add: DurationString_def maxDuration_def digits.simps digit_def numeral_eq_Suc)

lemma exitName_miss:
  assumes "EnableInstrumentation options"
    and "lookupTime st (getname Sprintf e []) = None"
    and "maxDuration < clock e"
  shows "exitName Sprintf options e st =
           getname Sprintf e [] @ '' ... in 2562047h47m16.854775807s''"
proof -
  have "readTime st (getname Sprintf e []) = 0"
    using assms(2) by (simp add: readTime_def lookupTime_def split: option.splits)
  moreover have "Since (clock e) 0 = maxDuration"
    using assms(3) by (simp add: Since_def)
  ultimately show ?thesis
    using assms(1) by (simp add: exitName_def Let_def DurationString_max)
qed

text \<open>What the claims below assume of the state is what \<^verbatim>\<open>New\<close> establishes
  for the tracer it returns, and what every later \<^verbatim>\<open>New\<close>, enter and exit call
  keeps: the maps the closures write exist and the logger is set. A decrement never
  leaves a negative depth behind.\<close>

lemma New_allocated:
  assumes "New opts st = (Tracer options, st')"
  shows "allocated options st' \<and> CustomLogger options \<noteq> None"
  using assms
  by (auto simp: New_def Let_def allocated_def split: if_splits option.splits)

lemma New_keeps_allocated:
  assumes "allocated other st" and "New opts st = (tr, st')"
  shows "allocated other st'"
  using assms
  by (auto simp: New_def Let_def allocated_def split: if_splits option.splits)

lemma enter_keeps_allocated:
  assumes "allocated other st" and "enter Sprintf options e s st = Inr st'"
  shows "allocated other st'"
  using assms
  by (auto simp: enter_def Let_def andThen_def logTo_def incrementDepth_def writeDepth_def
      writeTime_def allocated_def
      split: sum.splits option.splits if_splits)

lemma exit_keeps_allocated:
  assumes "allocated other st" and "exit Sprintf options e st = Inr st'"
  shows "allocated other st'"
  using assms
  by (auto simp: exit_def Let_def andThen_def logTo_def decrementDepth_def writeDepth_def
      deleteTime_def allocated_def
      split: sum.splits option.splits if_splits)

lemma decrementDepth_not_negative:
  assumes "\<not> DisableNesting options" and "decrementDepth options e st = Inr st'"
  shows "0 \<le> readDepth st' (gid e)"
  using assms
  by (auto simp: andThen_def logTo_def decrementDepth_def writeDepth_def readDepth_def
      split: sum.splits option.splits if_splits)

text \<open>A \<^verbatim>\<open>New\<close> with nesting starts every goroutine at depth 0 again, whatever
  calls are open; the sequences of calls considered below contain none.\<close>

lemma New_resets_depth:
  assumes "\<not> DisableTracing given" and "\<not> DisableNesting given"
  shows "readDepth (snd (New (Some given) st)) g = 0"
  using assms by (simp add: New_def Let_def readDepth_def)

lemma run_two_enters:
  "run SprintfPlain (Tracer demoDefaults) [CEnter demoEnv [], CEnter demoEnv []] demoFresh =
   Inr demoDeep"
proof -
  have g: "gid demoEnv = 1"
    by (simp add: demoEnv_def)
  show ?thesis
    by (simp add: callEnter_def enter_def Let_def getname_demoEnv_nil g spacify_def wrap64_def
        Repeat_def logTo_def incrementDepth_def writeDepth_def readDepth_def pad2_def Itoa_def
        digits.simps digit_def demoDefaults_def demoFresh_def demoDeep_def numeral_2_eq_2)
qed

section \<open>The claims\<close>

text \<open>
  C7. An enter call with exactly one argument, a string, puts that string as it stands
  after the tid, whatever the caller's name is and whatever the string contains (a
  \<^verbatim>\<open>$FN\<close> in it is not replaced); its message body is empty. An enter call
  without arguments gives the tid tag followed by \<^verbatim>\<open>]=>\<close> and nothing else.
\<close>

theorem C7_literal_suffix:
  "getname Sprintf e [VString x] = ''[tid:'' @ FormatUint (gid e) @ '' - '' @ x @ '']=>''
   \<and> getname Sprintf e [] = ''[tid:'' @ FormatUint (gid e) @ '']=>''"
  by (simp add: getname_def Let_def)

text \<open>
  C9. When the first argument of an enter call is not a string, all the arguments are
  ignored: the label is the one of an enter call without arguments, the tid tag with an
  empty body, and the whole call does what the call without arguments does.
\<close>

theorem C9_non_string_first:
  assumes "\<forall>x. a \<noteq> VString x"
  shows "getname Sprintf e (a # rest) = getname Sprintf e []
         \<and> getname Sprintf e (a # rest) = ''[tid:'' @ FormatUint (gid e) @ '']=>''
         \<and> enter Sprintf options e (a # rest) st = enter Sprintf options e [] st"
proof -
  have "getname Sprintf e (a # rest) = ''[tid:'' @ FormatUint (gid e) @ '']=>''"
    using assms by (cases a) (simp_all add: getname_def Let_def)
  moreover have "getname Sprintf e [] = ''[tid:'' @ FormatUint (gid e) @ '']=>''"
    by (simp add: getname_def Let_def)
  ultimately show ?thesis
    by (simp add: enter_def)
qed

theorem C9_witness:
  "getname SprintfPlain demoEnv [VInt 42, VInt 43] = ''[tid:1]=>''
   \<and> getname SprintfPlain demoEnv [VInt 42] = getname SprintfPlain demoEnv []"
proof -
  have h: "\<forall>x. VInt 42 \<noteq> VString x"
    by simp
  note two = C9_non_string_first [OF h, where Sprintf = SprintfPlain and e = demoEnv
      and rest = "[VInt 43]" and options = zeroOptions and st = initial]
  note one = C9_non_string_first [OF h, where Sprintf = SprintfPlain and e = demoEnv
      and rest = "[]" and options = zeroOptions and st = initial]
  have "getname SprintfPlain demoEnv [VInt 42, VInt 43] =
          ''[tid:'' @ FormatUint (gid demoEnv) @ '']=>''"
    by (rule two [THEN conjunct2, THEN conjunct1])
  moreover have "getname SprintfPlain demoEnv [VInt 42] = getname SprintfPlain demoEnv []"
    by (rule one [THEN conjunct1])
  ultimately show ?thesis
    by (simp add: demoEnv_def FormatUint_1)
qed

text \<open>
  C10. With \<^verbatim>\<open>DisableNesting\<close> set, the indent of every line is empty, also when
  \<^verbatim>\<open>DisableDepthValue\<close> is false: an enter line is the enter message followed
  by the label, an exit line the exit message followed by the exit name, and no other
  line is written. The bracketed depth is rendered under nesting only.
\<close>

theorem C10_no_depth_prefix:
  assumes "DisableNesting options"
    and "CustomLogger options = Some lg"
    and "EnableInstrumentation options \<longrightarrow> entryTime_t st \<noteq> None"
  shows "spacify options e st = Inr []
    \<and> (\<exists>st'. enter Sprintf options e s st = Inr st'
          \<and> written st' =
              written st @ [(lg, EnterMessage options @ getname Sprintf e s @ [CHR 0x0A])])
    \<and> (\<exists>st'. exit Sprintf options e st = Inr st'
          \<and> written st' =
              written st @
              [(lg, ExitMessage options @ exitName Sprintf options e st @ [CHR 0x0A])])"
proof (intro conjI)
  show "spacify options e st = Inr []"
    using assms(1) by (rule spacify_nesting_off)
next
  show "\<exists>st'. enter Sprintf options e s st = Inr st'
          \<and> written st' =
              written st @ [(lg, EnterMessage options @ getname Sprintf e s @ [CHR 0x0A])]"
  proof (cases "EnableInstrumentation options")
    case True
    with assms(3) obtain t where "entryTime_t st = Some t"
      by auto
    with True assms(1,2) show ?thesis
      by (simp add: enter_def Let_def writeTime_allocated spacify_nesting_off logTo_Some
          incrementDepth_def)
  next
    case False
    with assms(1,2) show ?thesis
      by (simp add: enter_def Let_def spacify_nesting_off logTo_Some incrementDepth_def)
  qed
next
  show "\<exists>st'. exit Sprintf options e st = Inr st'
          \<and> written st' =
              written st @
              [(lg, ExitMessage options @ exitName Sprintf options e st @ [CHR 0x0A])]"
    using assms(1,2)
    by (simp add: exit_def Let_def decrementDepth_def spacify_nesting_off logTo_Some)
qed

theorem C10_witness:
  "New (Some demoNoNesting) initial = (Tracer demoNoNestingDone, initial)
   \<and> \<not> DisableDepthValue demoNoNestingDone
   \<and> spacify demoNoNestingDone demoEnv initial = Inr []
   \<and> (\<exists>st'. enter SprintfPlain demoNoNestingDone demoEnv [] initial = Inr st'
         \<and> written st' = [(Stdout, ''ENTER: [tid:1]=>'' @ [CHR 0x0A])])
   \<and> (\<exists>st'. exit SprintfPlain demoNoNestingDone demoEnv initial = Inr st'
         \<and> written st' = [(Stdout, ''EXIT:  [tid:1]=>'' @ [CHR 0x0A])])"
proof -
  have 1: "DisableNesting demoNoNestingDone"
    by (simp add: demoNoNestingDone_def)
  have 2: "CustomLogger demoNoNestingDone = Some Stdout"
    by (simp add: demoNoNestingDone_def)
  have 3: "EnableInstrumentation demoNoNestingDone \<longrightarrow> entryTime_t initial \<noteq> None"
    by (simp add: demoNoNestingDone_def)
  have 4: "EnterMessage demoNoNestingDone = ''ENTER: ''"
    "ExitMessage demoNoNestingDone = ''EXIT:  ''"
    "\<not> DisableDepthValue demoNoNestingDone"
    "written initial = []"
    "exitName SprintfPlain demoNoNestingDone demoEnv initial = ''[tid:1]=>''"
    by (simp_all add: demoNoNestingDone_def initial_def exitName_def getname_demoEnv_nil)
  from C10_no_depth_prefix [OF 1 2 3, where Sprintf = SprintfPlain and e = demoEnv and s = "[]"]
  show ?thesis
    by (simp add: 4 getname_demoEnv_nil New_demoNoNesting)
qed

text \<open>
  C8. With \<^verbatim>\<open>DisableTracing\<close> set, \<^verbatim>\<open>New\<close> leaves the package state
  as it is (no map is made) and returns the no-op function, whose result is a no-op too:
  any sequence of enter and exit calls through it returns with the state unchanged, so
  nothing is written and no map is touched.
\<close>

theorem C8_disabled_noop:
  assumes "DisableTracing given"
  shows "New (Some given) st = (Noop, st) \<and> run Sprintf Noop calls st = Inr st"
proof
  show "New (Some given) st = (Noop, st)"
    using assms by (simp add: New_def)
next
  show "run Sprintf Noop calls st = Inr st"
  proof (induction calls)
    case Nil
    show ?case by simp
  next
    case (Cons c calls)
    have "step Sprintf Noop c st = Inr st"
      by (cases c) (simp_all add: callEnter_def callExit_def)
    with Cons show ?case
      by simp
  qed
qed

theorem C8_witness:
  "New (Some demoDisabled) initial = (Noop, initial)
   \<and> run SprintfPlain Noop
         [CEnter demoEnv [VString ''$FN(%d)'', VInt 2], CExit demoEnv] initial = Inr initial"
proof -
  have "DisableTracing demoDisabled"
    by (simp add: demoDisabled_def zeroOptions_def)
  then show ?thesis
    by (rule C8_disabled_noop)
qed

text \<open>
  C4. Under nesting, with the depth map made and a logger set (as \<^verbatim>\<open>New\<close>
  leaves them), a decrement for a goroutine whose depth reads 0 returns, leaves the depth
  reading 0 and writes exactly one line, the warning. The exit call it belongs to returns
  as well, whatever \<^verbatim>\<open>SpacesPerIndent\<close> is, and writes the warning and then its
  own line at depth 0.
\<close>

theorem C4_decrement_at_zero:
  assumes "\<not> DisableNesting options"
    and "CustomLogger options = Some lg"
    and "currentDepth_d st \<noteq> None"
    and "readDepth st (gid e) = 0"
  shows "(\<exists>st'. decrementDepth options e st = Inr st'
            \<and> readDepth st' (gid e) = 0
            \<and> written st' = written st @ [(lg, warning @ [CHR 0x0A])])
    \<and> (\<exists>st'. exit Sprintf options e st = Inr st'
            \<and> readDepth st' (gid e) = 0
            \<and> written st' =
                written st @
                [(lg, warning @ [CHR 0x0A]),
                 (lg, (if DisableDepthValue options then [] else ''[ 0]'') @
                      ExitMessage options @ exitName Sprintf options e st @ [CHR 0x0A])])"
proof -
  from assms(3) obtain m where m: "currentDepth_d st = Some m"
    by auto
  define st' where
    "st' = st\<lparr>currentDepth_d := Some (m(gid e \<mapsto> 0)),
               written := written st @ [(lg, warning @ [CHR 0x0A])]\<rparr>"
  have dec: "decrementDepth options e st = Inr st'"
    using assms(1,2,4) m
    by (simp add: decrementDepth_def writeDepth_allocated logTo_Some st'_def)
  have d0: "readDepth st' (gid e) = 0"
    by (simp add: st'_def)
  have w: "written st' = written st @ [(lg, warning @ [CHR 0x0A])]"
    by (simp add: st'_def)
  have sp: "spacify options e st' =
              Inr (if DisableDepthValue options then [] else ''[ 0]'')"
    using assms(1) d0 by (simp add: spacify_def wrap64_def Repeat_def pad2_0)
  have nm: "exitName Sprintf options e st' = exitName Sprintf options e st"
    by (simp add: st'_def)
  have "\<exists>st''. exit Sprintf options e st = Inr st''
            \<and> readDepth st'' (gid e) = 0
            \<and> written st'' =
                written st @
                [(lg, warning @ [CHR 0x0A]),
                 (lg, (if DisableDepthValue options then [] else ''[ 0]'') @
                      ExitMessage options @ exitName Sprintf options e st @ [CHR 0x0A])]"
    using assms(2) d0 w
    by (simp add: exit_def dec sp nm Let_def logTo_Some)
  with dec d0 w show ?thesis
    by blast
qed

theorem C4_witness:
  "New None initial = (Tracer demoDefaults, demoFresh)
   \<and> (\<exists>st'. decrementDepth demoDefaults demoEnv demoFresh = Inr st'
         \<and> readDepth st' 1 = 0
         \<and> written st' = [(Stdout, warning @ [CHR 0x0A])])
   \<and> (\<exists>st'. exit SprintfPlain demoDefaults demoEnv demoFresh = Inr st'
         \<and> readDepth st' 1 = 0
         \<and> written st' =
             [(Stdout, warning @ [CHR 0x0A]), (Stdout, ''[ 0]EXIT:  [tid:1]=>'' @ [CHR 0x0A])])"
proof -
  have 1: "\<not> DisableNesting demoDefaults"
    by (simp add: demoDefaults_def)
  have 2: "CustomLogger demoDefaults = Some Stdout"
    by (simp add: demoDefaults_def)
  have 3: "currentDepth_d demoFresh \<noteq> None"
    by (simp add: demoFresh_def)
  have 4: "readDepth demoFresh (gid demoEnv) = 0"
    by (simp add: demoFresh_def readDepth_def)
  have 5: "gid demoEnv = 1" "written demoFresh = []"
    "\<not> DisableDepthValue demoDefaults" "ExitMessage demoDefaults = ''EXIT:  ''"
    by (simp_all add: demoEnv_def demoFresh_def demoDefaults_def)
  have 6: "exitName SprintfPlain demoDefaults demoEnv demoFresh = ''[tid:1]=>''"
    by (simp add: demoDefaults_def exitName_def getname_demoEnv_nil)
  from C4_decrement_at_zero [OF 1 2 3 4, where Sprintf = SprintfPlain]
  show ?thesis
    by (simp add: 5 6 New_nil_initial)
qed

text \<open>
  C6. Under nesting, in a state where \<^verbatim>\<open>New\<close> has made the maps, with a depth
  \<open>d\<close> that is not negative, a \<^verbatim>\<open>SpacesPerIndent\<close> that is not negative, and
  the widest indent the calls can reach below 2^31 spaces (so that the product does not
  wrap in an \<^verbatim>\<open>int\<close> of either width, and \<^verbatim>\<open>strings.Repeat\<close> does
  not panic): an enter call writes its line with the indent of the depth it finds, the
  bracketed \<open>d\<close> and \<open>d\<close> times \<^verbatim>\<open>SpacesPerIndent\<close> spaces, and raises
  the depth afterwards; an exit call lowers the depth first and writes its line with the
  indent of the lowered depth. So when the calls in between are enter and exit calls
  through this tracer that nest on the same goroutine, the enter line and the exit line
  of a call carry the same indent, that of \<open>d\<close>, and the depth is back at \<open>d\<close>.
\<close>

theorem C6_same_indent:
  assumes nest: "\<not> DisableNesting options"
    and lg: "CustomLogger options = Some lg"
    and spi: "0 \<le> SpacesPerIndent options"
    and wide: "(readDepth st (gid e) + 1 + int (length inner)) * SpacesPerIndent options
                 < 2147483648"
    and al: "allocated options st"
    and d0: "0 \<le> readDepth st (gid e)"
    and same: "gid e' = gid e"
    and inner: "\<forall>c \<in> set inner. callGid c = gid e"
    and ok: "nestOk 0 inner"
  shows "let d = readDepth st (gid e);
             pre = (if DisableDepthValue options then [] else ''['' @ pad2 d @ '']'') @
                   replicate (nat (d * SpacesPerIndent options)) CHR '' ''
         in \<exists>st1 st2 st'.
              spacify options e st = Inr pre
            \<and> enter Sprintf options e s st = Inr st1
            \<and> written st1 =
                written st @
                [(lg, pre @ EnterMessage options @ getname Sprintf e s @ [CHR 0x0A])]
            \<and> readDepth st1 (gid e) = d + 1
            \<and> run Sprintf (Tracer options) inner st1 = Inr st2
            \<and> readDepth st2 (gid e) = d + 1
            \<and> exit Sprintf options e' st2 = Inr st'
            \<and> written st' =
                written st2 @
                [(lg, pre @ ExitMessage options @ exitName Sprintf options e' st2 @
                      [CHR 0x0A])]
            \<and> readDepth st' (gid e) = d
            \<and> run Sprintf (Tracer options) (CEnter e s # inner @ [CExit e']) st = Inr st'"
proof -
  define D where "D = readDepth st (gid e) + 1 + int (length inner)"
  define pre where
    "pre = (if DisableDepthValue options then []
            else ''['' @ pad2 (readDepth st (gid e)) @ '']'') @
           replicate (nat (readDepth st (gid e) * SpacesPerIndent options)) CHR '' ''"
  have wideD: "D * SpacesPerIndent options < 2147483648"
    using wide by (simp add: D_def)
  have "0 \<le> readDepth st (gid e) * SpacesPerIndent options
      \<and> readDepth st (gid e) * SpacesPerIndent options < 2147483648"
    using spi d0 wideD by (intro indent_bound [where D = D]) (simp_all add: D_def)
  with spacify_value [OF nest, of st e] have pre: "spacify options e st = Inr pre"
    by (simp add: pre_def)
  from enter_nested [OF nest lg al pre, of Sprintf s]
  obtain st1 where st1: "enter Sprintf options e s st = Inr st1"
    and w1: "written st1 =
      written st @ [(lg, pre @ EnterMessage options @ getname Sprintf e s @ [CHR 0x0A])]"
    and d1: "readDepth st1 (gid e) = readDepth st (gid e) + 1"
    and a1: "allocated options st1"
    by blast
  have k0: "int 0 \<le> readDepth st1 (gid e)"
    using d0 d1 by simp
  have room: "readDepth st1 (gid e) + int (length inner) \<le> D"
    using d1 by (simp add: D_def)
  from run_nested [OF nest lg spi wideD inner ok a1 k0 room, of Sprintf]
  obtain st2 where st2: "run Sprintf (Tracer options) inner st1 = Inr st2"
    and a2: "allocated options st2"
    and d2: "readDepth st2 (gid e) = readDepth st (gid e) + 1"
    using d1 by auto
  have pos: "0 < readDepth st2 (gid e')"
    using d0 d2 same by simp
  have le: "readDepth st2 (gid e') \<le> D"
    using d2 same by (simp add: D_def)
  from exit_nested [OF nest lg spi wideD a2 pos le, of Sprintf]
  obtain st' sp where st': "exit Sprintf options e' st2 = Inr st'"
    and sp: "spacify options e' st' = Inr sp"
    and w': "written st' =
      written st2 @ [(lg, sp @ ExitMessage options @ exitName Sprintf options e' st2 @ [CHR 0x0A])]"
    and d': "readDepth st' (gid e') = readDepth st2 (gid e') - 1"
    by blast
  have restored: "readDepth st' (gid e) = readDepth st (gid e)"
    using d' d2 same by simp
  have "spacify options e' st' = spacify options e st"
    using restored same by (intro spacify_same_depth) simp
  with sp pre have "sp = pre"
    by simp
  moreover have "run Sprintf (Tracer options) (CEnter e s # inner @ [CExit e']) st = Inr st'"
    by (simp add: callEnter_def st1 run_append st2 callExit_def st')
  ultimately have "\<exists>st1 st2 st'.
              spacify options e st = Inr pre
            \<and> enter Sprintf options e s st = Inr st1
            \<and> written st1 =
                written st @
                [(lg, pre @ EnterMessage options @ getname Sprintf e s @ [CHR 0x0A])]
            \<and> readDepth st1 (gid e) = readDepth st (gid e) + 1
            \<and> run Sprintf (Tracer options) inner st1 = Inr st2
            \<and> readDepth st2 (gid e) = readDepth st (gid e) + 1
            \<and> exit Sprintf options e' st2 = Inr st'
            \<and> written st' =
                written st2 @
                [(lg, pre @ ExitMessage options @ exitName Sprintf options e' st2 @
                      [CHR 0x0A])]
            \<and> readDepth st' (gid e) = readDepth st (gid e)
            \<and> run Sprintf (Tracer options) (CEnter e s # inner @ [CExit e']) st = Inr st'"
    using pre st1 w1 d1 st2 d2 st' w' restored by blast
  then show ?thesis
    by (simp add: Let_def pre_def)
qed

theorem C6_witness:
  "run SprintfPlain (Tracer demoDefaults) [CEnter demoEnv [], CEnter demoEnv []] demoFresh =
     Inr demoDeep
   \<and> (\<exists>st1 st2 st'.
        spacify demoDefaults demoEnv demoDeep = Inr ''[ 2]    ''
      \<and> enter SprintfPlain demoDefaults demoEnv [VString ''outer''] demoDeep = Inr st1
      \<and> written st1 =
          written demoDeep @ [(Stdout, ''[ 2]    ENTER: [tid:1 - outer]=>'' @ [CHR 0x0A])]
      \<and> readDepth st1 1 = 3
      \<and> run SprintfPlain (Tracer demoDefaults) [CEnter demoEnv [], CExit demoEnv] st1 = Inr st2
      \<and> exit SprintfPlain demoDefaults demoEnv st2 = Inr st'
      \<and> written st' = written st2 @ [(Stdout, ''[ 2]    EXIT:  [tid:1]=>'' @ [CHR 0x0A])]
      \<and> readDepth st' 1 = 2)"
proof -
  have g: "gid demoEnv = 1" "readDepth demoDeep 1 = 2"
    by (simp_all add: demoEnv_def demoDeep_def readDepth_def)
  have o: "SpacesPerIndent demoDefaults = 2" "\<not> DisableDepthValue demoDefaults"
    "EnterMessage demoDefaults = ''ENTER: ''" "ExitMessage demoDefaults = ''EXIT:  ''"
    by (simp_all add: demoDefaults_def)
  have 1: "\<not> DisableNesting demoDefaults"
    by (simp add: demoDefaults_def)
  have 2: "CustomLogger demoDefaults = Some Stdout"
    by (simp add: demoDefaults_def)
  have 3: "0 \<le> SpacesPerIndent demoDefaults"
    by (simp add: o)
  have 4: "(readDepth demoDeep (gid demoEnv) + 1 +
            int (length [CEnter demoEnv [], CExit demoEnv])) * SpacesPerIndent demoDefaults
             < 2147483648"
    by (simp add: g o)
  have 5: "allocated demoDefaults demoDeep"
    by (simp add: allocated_def demoDefaults_def demoDeep_def)
  have 6: "0 \<le> readDepth demoDeep (gid demoEnv)"
    by (simp add: g)
  have 7: "gid demoEnv = gid demoEnv"
    by simp
  have 8: "\<forall>c \<in> set [CEnter demoEnv [], CExit demoEnv]. callGid c = gid demoEnv"
    by simp
  have 9: "nestOk 0 [CEnter demoEnv [], CExit demoEnv]"
    by simp
  have p: "(if DisableDepthValue demoDefaults then []
            else ''['' @ pad2 (readDepth demoDeep (gid demoEnv)) @ '']'') @
           replicate (nat (readDepth demoDeep (gid demoEnv) * SpacesPerIndent demoDefaults))
             CHR '' '' = ''[ 2]    ''"
    by (simp add: g o pad2_def Itoa_def digits.simps digit_def numeral_eq_Suc)
  have n: "getname SprintfPlain demoEnv [VString ''outer''] = ''[tid:1 - outer]=>''"
    "\<And>st. exitName SprintfPlain demoDefaults demoEnv st = ''[tid:1]=>''"
    by (simp_all add: getname_def exitName_def Let_def demoEnv_def demoDefaults_def FormatUint_1)
  note c = C6_same_indent [OF 1 2 3 4 5 6 7 8 9, where Sprintf = SprintfPlain
      and s = "[VString ''outer'']", unfolded Let_def p]
  from c obtain st1 st2 st' where
    pre: "spacify demoDefaults demoEnv demoDeep = Inr ''[ 2]    ''"
    and st1: "enter SprintfPlain demoDefaults demoEnv [VString ''outer''] demoDeep = Inr st1"
    and w1: "written st1 =
      written demoDeep @
      [(Stdout, ''[ 2]    '' @ EnterMessage demoDefaults @
                getname SprintfPlain demoEnv [VString ''outer''] @ [CHR 0x0A])]"
    and d1: "readDepth st1 (gid demoEnv) = readDepth demoDeep (gid demoEnv) + 1"
    and st2: "run SprintfPlain (Tracer demoDefaults) [CEnter demoEnv [], CExit demoEnv] st1 =
      Inr st2"
    and st': "exit SprintfPlain demoDefaults demoEnv st2 = Inr st'"
    and w': "written st' =
      written st2 @
      [(Stdout, ''[ 2]    '' @ ExitMessage demoDefaults @
                exitName SprintfPlain demoDefaults demoEnv st2 @ [CHR 0x0A])]"
    and d': "readDepth st' (gid demoEnv) = readDepth demoDeep (gid demoEnv)"
    by blast
  have "\<exists>st1 st2 st'.
        spacify demoDefaults demoEnv demoDeep = Inr ''[ 2]    ''
      \<and> enter SprintfPlain demoDefaults demoEnv [VString ''outer''] demoDeep = Inr st1
      \<and> written st1 =
          written demoDeep @ [(Stdout, ''[ 2]    ENTER: [tid:1 - outer]=>'' @ [CHR 0x0A])]
      \<and> readDepth st1 1 = 3
      \<and> run SprintfPlain (Tracer demoDefaults) [CEnter demoEnv [], CExit demoEnv] st1 = Inr st2
      \<and> exit SprintfPlain demoDefaults demoEnv st2 = Inr st'
      \<and> written st' = written st2 @ [(Stdout, ''[ 2]    EXIT:  [tid:1]=>'' @ [CHR 0x0A])]
      \<and> readDepth st' 1 = 2"
    using pre st1 w1 d1 st2 st' w' d' by (simp add: g o n)
  then show ?thesis
    using run_two_enters by blast
qed

text \<open>
  C2, as the specification states it, fails: the expression strips up to the last slash,
  and the name the runtime gives for \<^verbatim>\<open>func foo\<close> of package
  \<^verbatim>\<open>main\<close> is \<^verbatim>\<open>main.foo\<close>, without a slash, so it is kept
  whole and the body of \<^verbatim>\<open>enter("$FN(%d)", 2)\<close> is
  \<^verbatim>\<open>main.foo(2)\<close>, not \<^verbatim>\<open>foo(2)\<close>.
\<close>

theorem C2_counterexample:
  "stripFnPreamble ''main.foo'' = ''main.foo''
   \<and> getname SprintfPlain demoEnv [VString ''$FN(%d)'', VInt 2] = ''[tid:1]=>main.foo(2)''
   \<and> getname SprintfPlain demoEnv [VString ''$FN(%d)'', VInt 2] \<noteq> ''[tid:1]=>foo(2)''"
  by code_simp

text \<open>
  C2, amended. The resolved name is the runtime's name with its path prefix removed:
  what follows the last slash, package qualifier included, and the whole name when it has
  no slash. When that name is not empty and has no dollar sign, the message body of
  \<^verbatim>\<open>enter("$FN(%d)", 2)\<close> is that name followed by
  \<^verbatim>\<open>(2)\<close> (given that the formatter renders \<^verbatim>\<open>%d\<close> of 2 as
  \<^verbatim>\<open>2\<close>, which \<^verbatim>\<open>fmt.Sprintf\<close> does).
\<close>

theorem C2_path_prefix_stripped:
  assumes "caller e = Some fr"
    and "CHR 0x0A \<notin> set (fr_name fr)"
    and "stripFnPreamble (fr_name fr) \<noteq> []"
    and "CHR ''$'' \<notin> set (stripFnPreamble (fr_name fr))"
    and "Sprintf ''$FN(%d)'' [VInt 2] = ''$FN(2)''"
  shows "CHR ''/'' \<notin> set (stripFnPreamble (fr_name fr))
    \<and> (\<exists>pre. fr_name fr = pre @ stripFnPreamble (fr_name fr)
           \<and> (pre = [] \<or> last pre = CHR ''/''))
    \<and> (CHR ''/'' \<notin> set (fr_name fr) \<longrightarrow> stripFnPreamble (fr_name fr) = fr_name fr)
    \<and> getname Sprintf e [VString ''$FN(%d)'', VInt 2] =
        ''[tid:'' @ FormatUint (gid e) @ '']=>'' @ stripFnPreamble (fr_name fr) @ ''(2)''"
proof (intro conjI)
  show "CHR ''/'' \<notin> set (stripFnPreamble (fr_name fr))"
    using assms(2) by (rule stripFnPreamble_no_slash)
next
  show "\<exists>pre. fr_name fr = pre @ stripFnPreamble (fr_name fr)
           \<and> (pre = [] \<or> last pre = CHR ''/'')"
    using assms(2) by (rule stripFnPreamble_suffix)
next
  show "CHR ''/'' \<notin> set (fr_name fr) \<longrightarrow> stripFnPreamble (fr_name fr) = fr_name fr"
  proof
    assume "CHR ''/'' \<notin> set (fr_name fr)"
    then have "lastGroup (fr_name fr) = None"
      by (simp add: lastGroup_None)
    then show "stripFnPreamble (fr_name fr) = fr_name fr"
      by (simp add: stripFnPreamble_def)
  qed
next
  have "replaceFN (Sprintf ''$FN(%d)'' [VInt 2]) (stripFnPreamble (fr_name fr)) =
          stripFnPreamble (fr_name fr) @ ''(2)''"
    by (simp only: assms(5) replaceFN_example expand_no_dollar [OF assms(4)])
  then show "getname Sprintf e [VString ''$FN(%d)'', VInt 2] =
        ''[tid:'' @ FormatUint (gid e) @ '']=>'' @ stripFnPreamble (fr_name fr) @ ''(2)''"
    using assms(1,3) by (simp add: getname_def Let_def)
qed

theorem C2_witness:
  "stripFnPreamble ''github.com/sujitvp/go-tracey.foo'' = ''go-tracey.foo''
   \<and> getname SprintfPlain demoEnvPath [VString ''$FN(%d)'', VInt 2] =
       ''[tid:7]=>go-tracey.foo(2)''"
proof -
  define fr where
    "fr = \<lparr>fr_name = ''github.com/sujitvp/go-tracey.foo'',
           fr_file = ''/src/tracey_test.go'', fr_line = 40\<rparr>"
  have s: "stripFnPreamble ''github.com/sujitvp/go-tracey.foo'' = ''go-tracey.foo''"
    by (simp add: stripFnPreamble_def)
  have 1: "caller demoEnvPath = Some fr"
    by (simp add: demoEnvPath_def fr_def)
  have n: "fr_name fr = ''github.com/sujitvp/go-tracey.foo''"
    by (simp add: fr_def)
  have 2: "CHR 0x0A \<notin> set (fr_name fr)"
    by (simp add: n)
  have 3: "stripFnPreamble (fr_name fr) \<noteq> []"
    by (simp add: n s)
  have 4: "CHR ''$'' \<notin> set (stripFnPreamble (fr_name fr))"
    by (simp add: n s)
  have 5: "SprintfPlain ''$FN(%d)'' [VInt 2] = ''$FN(2)''"
    by (simp add: Itoa_def digits.simps digit_def)
  have g: "FormatUint (gid demoEnvPath) = ''7''"
    by (simp add: demoEnvPath_def FormatUint_def digits.simps digit_def)
  from C2_path_prefix_stripped [where e = demoEnvPath and fr = fr and Sprintf = SprintfPlain,
      OF 1 2 3 4 5]
  have "getname SprintfPlain demoEnvPath [VString ''$FN(%d)'', VInt 2] =
        ''[tid:'' @ FormatUint (gid demoEnvPath) @ '']=>'' @ stripFnPreamble (fr_name fr) @ ''(2)''"
    by blast
  then show ?thesis
    by (simp add: n s g)
qed

text \<open>
  C5, as the specification states it, fails: the depth and timing maps are package-level
  variables. After \<^verbatim>\<open>New(nil)\<close> and a second \<^verbatim>\<open>New\<close> with another
  enter message, an enter call through the first tracer changes the indent the second one
  renders for the same goroutine from depth 0 to depth 1.
\<close>

theorem C5_counterexample:
  "New None initial = (Tracer demoDefaults, demoFresh)
   \<and> New (Some demoB) demoFresh = (Tracer demoBDone, demoFresh)
   \<and> spacify demoBDone demoEnv demoFresh = Inr ''[ 0]''
   \<and> andThen (enter SprintfPlain demoDefaults demoEnv [] demoFresh)
        (spacify demoBDone demoEnv) = Inr ''[ 1]  ''"
proof -
  have "spacify demoBDone demoEnv demoFresh = Inr ''[ 0]''"
    by code_simp
  moreover have "andThen (enter SprintfPlain demoDefaults demoEnv [] demoFresh)
        (spacify demoBDone demoEnv) = Inr ''[ 1]  ''"
    by code_simp
  ultimately show ?thesis
    by (simp add: New_nil_initial New_demoB)
qed

text \<open>
  C5, amended. The state is shared by all enter and exit calls, of one tracer and of
  different tracers alike. An enter call through a tracer with nesting raises by one the
  depth read for its goroutine, an exit call lowers it (not below 0); every tracer
  \<open>ob\<close> renders its indent from that same reading; under instrumentation the start
  instant the enter call stores under its label is the one read under that label, and the
  exit name of every tracer is computed from that same table.
\<close>

theorem C5_state_shared:
  assumes "\<not> DisableNesting oa"
    and "enter Sprintf oa e s st = Inr st1"
    and "exit Sprintf oa e st = Inr st2"
  shows "readDepth st1 (gid e) = readDepth st (gid e) + 1
    \<and> readDepth st2 (gid e) = max 0 (readDepth st (gid e) - 1)
    \<and> (EnableInstrumentation oa \<longrightarrow> readTime st1 (getname Sprintf e s) = clock e)
    \<and> (\<forall>ob st0. readDepth st0 (gid e) = readDepth st (gid e) + 1 \<longrightarrow>
          spacify ob e st1 = spacify ob e st0)
    \<and> (\<forall>ob. exitName Sprintf ob e st1 =
          (let fname = getname Sprintf e []
           in if EnableInstrumentation ob
              then fname @ '' ... in '' @ DurationString (Since (clock e) (readTime st1 fname))
              else fname))"
proof (intro conjI allI impI)
  show "readDepth st1 (gid e) = readDepth st (gid e) + 1"
    using assms(1,2) by (rule enter_depth)
  show "readDepth st2 (gid e) = max 0 (readDepth st (gid e) - 1)"
    using assms(1,3) by (rule exit_depth)
  show "readTime st1 (getname Sprintf e s) = clock e" if "EnableInstrumentation oa"
    using that assms(2) by (rule enter_time)
  show "spacify ob e st1 = spacify ob e st0"
    if "readDepth st0 (gid e) = readDepth st (gid e) + 1" for ob st0
    using that enter_depth [OF assms(1,2)] by (intro spacify_same_depth) simp
  show "exitName Sprintf ob e st1 =
          (let fname = getname Sprintf e []
           in if EnableInstrumentation ob
              then fname @ '' ... in '' @ DurationString (Since (clock e) (readTime st1 fname))
              else fname)" for ob
    by (simp add: exitName_def)
qed

theorem C5_witness:
  "\<exists>st1 st2.
      enter SprintfPlain demoDefaults demoEnv [] demoFresh = Inr st1
    \<and> exit SprintfPlain demoDefaults demoEnv demoFresh = Inr st2
    \<and> readDepth st1 1 = 1
    \<and> readDepth st2 1 = 0
    \<and> spacify demoBDone demoEnv st1 = Inr ''[ 1]  ''"
proof -
  have 1: "\<not> DisableNesting demoDefaults"
    by (simp add: demoDefaults_def)
  have lg: "CustomLogger demoDefaults = Some Stdout"
    by (simp add: demoDefaults_def)
  have al: "allocated demoDefaults demoFresh"
    by (simp add: allocated_def demoDefaults_def demoFresh_def)
  have sp: "spacify demoDefaults demoEnv demoFresh = Inr ''[ 0]''"
    by (simp add: spacify_def wrap64_def demoDefaults_def demoFresh_def readDepth_def Repeat_def
        pad2_0)
  from enter_nested [OF 1 lg al sp, of SprintfPlain "[]"]
  obtain st1 where 2: "enter SprintfPlain demoDefaults demoEnv [] demoFresh = Inr st1"
    by blast
  have "\<exists>st2. exit SprintfPlain demoDefaults demoEnv demoFresh = Inr st2"
    by (simp add: exit_def decrementDepth_def writeDepth_def logTo_def spacify_def wrap64_def
        Repeat_def Let_def demoDefaults_def demoFresh_def readDepth_def)
  then obtain st2 where 3: "exit SprintfPlain demoDefaults demoEnv demoFresh = Inr st2"
    by blast
  define st0 where "st0 = demoFresh\<lparr>currentDepth_d := Some [1 \<mapsto> 1]\<rparr>"
  have g: "gid demoEnv = 1" "readDepth demoFresh 1 = 0" "readDepth st0 1 = 1"
    by (simp_all add: demoEnv_def demoFresh_def readDepth_def st0_def)
  have r: "spacify demoBDone demoEnv st0 = Inr ''[ 1]  ''"
    by (simp add: spacify_def wrap64_def demoBDone_def g Repeat_def pad2_def Itoa_def
        digits.simps digit_def numeral_2_eq_2)
  note c = C5_state_shared [OF 1 2 3]
  have "readDepth st1 1 = 1"
    using c [THEN conjunct1] by (simp add: g)
  moreover have "readDepth st2 1 = 0"
    using c [THEN conjunct2, THEN conjunct1] by (simp add: g)
  moreover have "spacify demoBDone demoEnv st1 = spacify demoBDone demoEnv st0"
    using c [THEN conjunct2, THEN conjunct2, THEN conjunct2, THEN conjunct1] by (simp add: g)
  ultimately show ?thesis
    using 2 3 r by simp
qed

text \<open>
  C1 does not hold of the code. With instrumentation, \<^verbatim>\<open>_exit\<close> always appends
  a duration, the time since the instant read under its own label, the tid tag with an
  empty body. That read is not checked: when nothing is stored there, it yields the zero
  instant, and the duration printed is the time since then, cut at the largest duration.
  This is the case of every enter call that was given a message: it stores its start
  under a label with the message body, which \<^verbatim>\<open>_exit\<close> does not look up. Below,
  \<^verbatim>\<open>enter("$FN(%d)", 2)\<close> and its exit 1.5 milliseconds later.
\<close>

theorem C1_elapsed_of_zero_instant:
  "New (Some demoTimed) initial = (Tracer demoTimedDone, demoTimedFresh)
   \<and> (\<exists>st. run SprintfPlain (Tracer demoTimedDone)
              [CEnter demoEnv [VString ''$FN(%d)'', VInt 2], CExit demoEnvLater]
              demoTimedFresh = Inr st
         \<and> written st =
             [(Stdout, ''[ 0]ENTER: [tid:1]=>main.foo(2)'' @ [CHR 0x0A]),
              (Stdout, ''[ 0]EXIT:  [tid:1]=> ... in 2562047h47m16.854775807s'' @ [CHR 0x0A])]
         \<and> lookupTime st ''[tid:1]=>main.foo(2)'' = Some 63902822400000000000
         \<and> lookupTime st ''[tid:1]=>'' = None)"
proof -
  have "map_sum id
          (\<lambda>st. (written st, lookupTime st ''[tid:1]=>main.foo(2)'', lookupTime st ''[tid:1]=>''))
          (run SprintfPlain (Tracer demoTimedDone)
             [CEnter demoEnv [VString ''$FN(%d)'', VInt 2], CExit demoEnvLater]
             demoTimedFresh) =
        Inr ([(Stdout, ''[ 0]ENTER: [tid:1]=>main.foo(2)'' @ [CHR 0x0A]),
              (Stdout, ''[ 0]EXIT:  [tid:1]=> ... in 2562047h47m16.854775807s'' @ [CHR 0x0A])],
             Some 63902822400000000000, None)"
    by code_simp
  then have "\<exists>st. run SprintfPlain (Tracer demoTimedDone)
              [CEnter demoEnv [VString ''$FN(%d)'', VInt 2], CExit demoEnvLater]
              demoTimedFresh = Inr st
         \<and> written st =
             [(Stdout, ''[ 0]ENTER: [tid:1]=>main.foo(2)'' @ [CHR 0x0A]),
              (Stdout, ''[ 0]EXIT:  [tid:1]=> ... in 2562047h47m16.854775807s'' @ [CHR 0x0A])]
         \<and> lookupTime st ''[tid:1]=>main.foo(2)'' = Some 63902822400000000000
         \<and> lookupTime st ''[tid:1]=>'' = None"
    by (cases "run SprintfPlain (Tracer demoTimedDone)
              [CEnter demoEnv [VString ''$FN(%d)'', VInt 2], CExit demoEnvLater]
              demoTimedFresh") simp_all
  then show ?thesis
    by (simp add: New_demoTimed)
qed

text \<open>
  C3 does not hold of the code. \<^verbatim>\<open>_exit\<close> deletes the key held in
  \<^verbatim>\<open>fname\<close> after the duration has been appended to it, which is not the key the
  enter call stored: the start instant stays in the table. Below, an enter call without
  arguments and its exit 1.5 milliseconds later; \<open>exit_keeps_plain_label\<close> above is
  the general fact.
\<close>

theorem C3_entry_survives:
  "New (Some demoTimed) initial = (Tracer demoTimedDone, demoTimedFresh)
   \<and> (\<exists>st. run SprintfPlain (Tracer demoTimedDone) [CEnter demoEnv [], CExit demoEnvLater]
              demoTimedFresh = Inr st
         \<and> written st =
             [(Stdout, ''[ 0]ENTER: [tid:1]=>'' @ [CHR 0x0A]),
              (Stdout, ''[ 0]EXIT:  [tid:1]=> ... in 1.5ms'' @ [CHR 0x0A])]
         \<and> lookupTime st ''[tid:1]=>'' = Some 63902822400000000000)"
proof -
  have "map_sum id (\<lambda>st. (written st, lookupTime st ''[tid:1]=>''))
          (run SprintfPlain (Tracer demoTimedDone) [CEnter demoEnv [], CExit demoEnvLater]
             demoTimedFresh) =
        Inr ([(Stdout, ''[ 0]ENTER: [tid:1]=>'' @ [CHR 0x0A]),
              (Stdout, ''[ 0]EXIT:  [tid:1]=> ... in 1.5ms'' @ [CHR 0x0A])],
             Some 63902822400000000000)"
    by code_simp
  then have "\<exists>st. run SprintfPlain (Tracer demoTimedDone) [CEnter demoEnv [], CExit demoEnvLater]
              demoTimedFresh = Inr st
         \<and> written st =
             [(Stdout, ''[ 0]ENTER: [tid:1]=>'' @ [CHR 0x0A]),
              (Stdout, ''[ 0]EXIT:  [tid:1]=> ... in 1.5ms'' @ [CHR 0x0A])]
         \<and> lookupTime st ''[tid:1]=>'' = Some 63902822400000000000"
    by (cases "run SprintfPlain (Tracer demoTimedDone) [CEnter demoEnv [], CExit demoEnvLater]
              demoTimedFresh") simp_all
  then show ?thesis
    by (simp add: New_demoTimed)
qed

end
